theory Spec2Isabelle
  imports Main
begin

section \<open>JavaScript values\<close>

text \<open>
  The values that flow through the payment workflow: response bodies parsed from JSON,
  the fields of a caught error, the argument of a toast. An object is the list of its
  own properties.
\<close>

datatype jsval =
    JUndefined
  | JNull
  | JBool bool
  | JNum int
  | JStr string
  | JArr "jsval list"
  | JObj "(string \<times> jsval) list"

type_synonym js_object = "(string \<times> jsval) list"

text \<open>Truthiness, as \<^verbatim>\<open>?:\<close> and \<^verbatim>\<open>||\<close> test it.\<close>

fun truthy :: "jsval \<Rightarrow> bool" where
  "truthy JUndefined = False"
| "truthy JNull = False"
| "truthy (JBool b) = b"
| "truthy (JNum n) = (n \<noteq> 0)"
| "truthy (JStr s) = (s \<noteq> [])"
| "truthy (JArr vs) = True"
| "truthy (JObj fs) = True"

text \<open>\<^verbatim>\<open>o.p\<close> on an object: the property's value, \<^verbatim>\<open>undefined\<close> when it has none.\<close>

definition obj_get :: "js_object \<Rightarrow> string \<Rightarrow> jsval" where
  "obj_get fs p = (case map_of fs p of None \<Rightarrow> JUndefined | Some v \<Rightarrow> v)"

text \<open>
  \<^verbatim>\<open>v.p\<close> on any value, for the property names this program reads (\<^verbatim>\<open>url\<close>,
  \<^verbatim>\<open>payment_status\<close>, \<^verbatim>\<open>data\<close>, \<^verbatim>\<open>detail\<close>): on \<^verbatim>\<open>undefined\<close> and \<^verbatim>\<open>null\<close>
  the read throws a TypeError (\<open>None\<close>), a primitive has no such property.
\<close>

fun member :: "jsval \<Rightarrow> string \<Rightarrow> jsval option" where
  "member JUndefined p = None"
| "member JNull p = None"
| "member (JObj fs) p = Some (obj_get fs p)"
| "member v p = Some JUndefined"

text \<open>\<^verbatim>\<open>v?.p\<close>: optional chaining short-circuits to \<^verbatim>\<open>undefined\<close> instead of throwing.\<close>

definition opt_member :: "jsval \<Rightarrow> string \<Rightarrow> jsval" where
  "opt_member v p = (case member v p of None \<Rightarrow> JUndefined | Some w \<Rightarrow> w)"

text \<open>\<^verbatim>\<open>a || b\<close>\<close>

definition js_or :: "jsval \<Rightarrow> jsval \<Rightarrow> jsval" where
  "js_or a b = (if truthy a then a else b)"

section \<open>utils/api.js\<close>

text \<open>
  Browser local storage maps keys to strings; \<^verbatim>\<open>getItem\<close> returns \<^verbatim>\<open>null\<close> (\<open>None\<close>)
  for a key that is not stored.
\<close>

type_synonym storage = "string \<rightharpoonup> string"

definition getItem :: "storage \<Rightarrow> string \<Rightarrow> string option" where
  "getItem ls k = ls k"

datatype http_method = GET | POST

record http_request =
  req_method :: http_method
  url :: string
  body :: jsval
  headers :: "(string \<times> string) list"

text \<open>
  \<^verbatim>\<open>const API_BASE = `${BACKEND_URL}/api`\<close>; the backend URL comes from the build
  environment and is a parameter here.
\<close>

definition API_BASE :: "string \<Rightarrow> string" where
  "API_BASE backend_url = backend_url @ ''/api''"

text \<open>
  \<^verbatim>\<open>const token = localStorage.getItem('token');
  return token ? { Authorization: `Bearer ${token}` } : {};\<close>
  The test is on the truthiness of \<^verbatim>\<open>token\<close>: \<^verbatim>\<open>null\<close> and the empty string
  both take the second branch.
\<close>

definition getAuthHeaders :: "storage \<Rightarrow> (string \<times> string) list" where
  "getAuthHeaders ls =
     (case getItem ls ''token'' of
        None \<Rightarrow> []
      | Some token \<Rightarrow>
          (if token \<noteq> [] then [(''Authorization'', ''Bearer '' @ token)] else []))"

text \<open>A string-or-null value inside a template literal.\<close>

definition template :: "string option \<Rightarrow> string" where
  "template v = (case v of None \<Rightarrow> ''null'' | Some s \<Rightarrow> s)"

text \<open>
  \<^verbatim>\<open>createCheckout: (data) => axios.post(`${API_BASE}/payments/checkout`, data,
     { headers: getAuthHeaders() })\<close>
  \<^verbatim>\<open>getStatus: (sessionId) => axios.get(`${API_BASE}/payments/status/${sessionId}`,
     { headers: getAuthHeaders() })\<close>
  The \<open>headers\<close> of the request record are the \<^verbatim>\<open>headers\<close> option the call hands to
  axios; what axios adds to them on the wire is not part of it.
\<close>

definition createCheckout :: "string \<Rightarrow> storage \<Rightarrow> jsval \<Rightarrow> http_request" where
  "createCheckout backend_url ls data =
     \<lparr>req_method = POST,
      url = API_BASE backend_url @ ''/payments/checkout'',
      body = data,
      headers = getAuthHeaders ls\<rparr>"

definition getStatus :: "string \<Rightarrow> storage \<Rightarrow> string option \<Rightarrow> http_request" where
  "getStatus backend_url ls sessionId =
     \<lparr>req_method = GET,
      url = API_BASE backend_url @ ''/payments/status/'' @ template sessionId,
      body = JUndefined,
      headers = getAuthHeaders ls\<rparr>"

text \<open>
  An axios call settles in one of two ways: it resolves with a response object, or it
  rejects with an error object (for a backend-reported error the error carries the
  \<^verbatim>\<open>response\<close>; for a network error it does not).
\<close>

datatype axios_outcome = Resolved js_object | Rejected js_object

section \<open>Observable effects\<close>

text \<open>
  What a handler does to the outside world, in the order it does it: an HTTP request
  handed to axios, an assignment to \<^verbatim>\<open>window.location.href\<close> (a full navigation),
  a toast.
\<close>

datatype effect =
    HttpRequest http_request
  | SetLocationHref jsval
  | ToastSuccess jsval
  | ToastError jsval

fun sent :: "effect list \<Rightarrow> http_request list" where
  "sent [] = []"
| "sent (HttpRequest r # es) = r # sent es"
| "sent (e # es) = sent es"

fun navigations :: "effect list \<Rightarrow> jsval list" where
  "navigations [] = []"
| "navigations (SetLocationHref v # es) = v # navigations es"
| "navigations (e # es) = navigations es"

text \<open>
  The error object of a failed property read on \<^verbatim>\<open>undefined\<close> or \<^verbatim>\<open>null\<close>: it
  has no \<^verbatim>\<open>response\<close>.
\<close>

definition TypeError :: js_object where
  "TypeError = [(''name'', JStr ''TypeError'')]"

text \<open>
  The error object that the setter of \<^verbatim>\<open>window.location.href\<close> throws when the value
  assigned does not parse as a URL: it has no \<^verbatim>\<open>response\<close> either.
\<close>

definition SyntaxError :: js_object where
  "SyntaxError = [(''name'', JStr ''SyntaxError'')]"

text \<open>
  The URL parser of the browser is a parameter \<open>url_parses\<close> of the handler:
  \<open>url_parses v\<close> says that \<open>v\<close>, converted to a string, parses as a URL against the
  address of the page. \<open>parses_except bad\<close> is a parser that rejects the values listed
  in \<open>bad\<close> and accepts every other value.
\<close>

definition parses_except :: "jsval list \<Rightarrow> jsval \<Rightarrow> bool" where
  "parses_except bad v = (v \<notin> set bad)"

section \<open>pages/OrganizationPage.js\<close>

record package =
  pkg_id :: string
  pkg_name :: string
  price :: string
  features :: "string list"

definition packages :: "package list" where
  "packages =
     [\<lparr>pkg_id = ''starter'', pkg_name = ''Starter'', price = ''$29'',
       features = [''Up to 10 users'', ''Basic task management'', ''Email support'']\<rparr>,
      \<lparr>pkg_id = ''professional'', pkg_name = ''Professional'', price = ''$79'',
       features = [''Up to 50 users'', ''Advanced features'', ''Priority support'']\<rparr>,
      \<lparr>pkg_id = ''enterprise'', pkg_name = ''Enterprise'', price = ''$199'',
       features = [''Unlimited users'', ''All features'', ''24/7 support'']\<rparr>]"

text \<open>The \<^verbatim>\<open>useState\<close> cells of the page, with their initial values.\<close>

record org_page =
  organization :: jsval
  members :: jsval
  stats :: jsval
  loading :: bool
  inviteDialogOpen :: bool
  paymentDialogOpen :: bool
  selectedPackage :: string

definition org_page_init :: org_page where
  "org_page_init =
     \<lparr>organization = JNull, members = JArr [], stats = JNull, loading = True,
      inviteDialogOpen = False, paymentDialogOpen = False, selectedPackage = ''starter''\<rparr>"

text \<open>
  \<^verbatim>\<open>
  const handleUpgrade = async () => {
    try {
      const response = await paymentAPI.createCheckout({
        package_id: selectedPackage,
        org_id: orgId,
      });
      window.location.href = response.data.url;
    } catch (error) {
      toast.error(error.response?.data?.detail || 'Failed to create checkout session');
    }
  };
  \<close>
  \<open>orgId\<close> is the route parameter of \<^verbatim>\<open>/organization/:orgId\<close>. The handler takes the
  way the request settles and returns its effects and the page state; it calls no state
  setter, so the page state is returned as it was. The assignment to
  \<^verbatim>\<open>window.location.href\<close> is inside the \<^verbatim>\<open>try\<close>: when the value does not parse as a
  URL the setter throws, nothing is navigated and the \<^verbatim>\<open>catch\<close> block runs.
\<close>

definition handleUpgrade ::
  "(jsval \<Rightarrow> bool) \<Rightarrow> string \<Rightarrow> storage \<Rightarrow> string \<Rightarrow> axios_outcome \<Rightarrow> org_page
     \<Rightarrow> effect list \<times> org_page" where
  "handleUpgrade url_parses backend_url ls orgId outcome pg =
     (let request = createCheckout backend_url ls
            (JObj [(''package_id'', JStr (selectedPackage pg)), (''org_id'', JStr orgId)]);
          catch = (\<lambda>error.
            [ToastError (js_or
               (opt_member (opt_member (obj_get error ''response'') ''data'') ''detail'')
               (JStr ''Failed to create checkout session''))])
      in (HttpRequest request #
          (case outcome of
             Resolved response \<Rightarrow>
               (case member (obj_get response ''data'') ''url'' of
                  None \<Rightarrow> catch TypeError
                | Some u \<Rightarrow> if url_parses u then [SetLocationHref u] else catch SyntaxError)
           | Rejected error \<Rightarrow> catch error),
          pg))"

text \<open>
  The states the page can be in: the state setters are called by \<^verbatim>\<open>fetchData\<close>
  (organization, members, stats, loading), by \<^verbatim>\<open>handleInvite\<close> and the two dialogs
  (\<^verbatim>\<open>onOpenChange\<close>), and by the click handler of a package card, rendered once for each
  entry of \<open>packages\<close>: \<^verbatim>\<open>onClick={() => setSelectedPackage(pkg.id)}\<close>.
\<close>

inductive org_reachable :: "org_page \<Rightarrow> bool" where
  mounted: "org_reachable org_page_init"
| fetchData_ok:
    "org_reachable pg \<Longrightarrow>
     org_reachable (pg\<lparr>organization := orgRes, members := membersRes, stats := statsRes,
                       loading := False\<rparr>)"
| fetchData_failed: "org_reachable pg \<Longrightarrow> org_reachable (pg\<lparr>loading := False\<rparr>)"
| invite_dialog: "org_reachable pg \<Longrightarrow> org_reachable (pg\<lparr>inviteDialogOpen := b\<rparr>)"
| payment_dialog: "org_reachable pg \<Longrightarrow> org_reachable (pg\<lparr>paymentDialogOpen := b\<rparr>)"
| select_package:
    "org_reachable pg \<Longrightarrow> pkg \<in> set packages \<Longrightarrow>
     org_reachable (pg\<lparr>selectedPackage := pkg_id pkg\<rparr>)"
| upgrade:
    "org_reachable pg \<Longrightarrow>
     org_reachable (snd (handleUpgrade url_parses backend_url ls orgId outcome pg))"

section \<open>pages/PaymentSuccess.js\<close>

text \<open>
  The component function runs once for each render. Each run binds \<^verbatim>\<open>attempts\<close> and
  \<^verbatim>\<open>sessionId\<close> as constants and creates its own \<^verbatim>\<open>pollPaymentStatus\<close>, a closure over
  these bindings: the scope of a render.
\<close>

record render_scope =
  scope_attempts :: nat
  scope_sessionId :: "string option"

text \<open>
  The component instance: its two \<^verbatim>\<open>useState\<close> cells, whether it is still mounted,
  the callbacks handed to \<^verbatim>\<open>setTimeout\<close> and not yet run (all with the same delay of
  2000 ms, so they run in the order they were scheduled), the activations of
  \<^verbatim>\<open>pollPaymentStatus\<close> suspended at their \<^verbatim>\<open>await\<close> (the status queries in flight), and
  the effects so far. A callback or an activation is represented by the scope of the
  closure it belongs to.
\<close>

record payment_success =
  status :: string
  attempts :: nat
  is_mounted :: bool
  timers :: "render_scope list"
  in_flight :: "render_scope list"
  effects :: "effect list"

definition payment_success_init :: payment_success where
  "payment_success_init =
     \<lparr>status = ''checking'', attempts = 0, is_mounted = True,
      timers = [], in_flight = [], effects = []\<rparr>"

definition render :: "payment_success \<Rightarrow> string option \<Rightarrow> render_scope" where
  "render p sessionId = \<lparr>scope_attempts = attempts p, scope_sessionId = sessionId\<rparr>"

text \<open>
  State setters. React drops a state update that arrives after the component was
  unmounted.
\<close>

definition setStatus :: "string \<Rightarrow> payment_success \<Rightarrow> payment_success" where
  "setStatus v p = (if is_mounted p then p\<lparr>status := v\<rparr> else p)"

definition setAttempts :: "(nat \<Rightarrow> nat) \<Rightarrow> payment_success \<Rightarrow> payment_success" where
  "setAttempts f p = (if is_mounted p then p\<lparr>attempts := f (attempts p)\<rparr> else p)"

definition toast_success :: "string \<Rightarrow> payment_success \<Rightarrow> payment_success" where
  "toast_success msg p = p\<lparr>effects := effects p @ [ToastSuccess (JStr msg)]\<rparr>"

definition toast_error :: "string \<Rightarrow> payment_success \<Rightarrow> payment_success" where
  "toast_error msg p = p\<lparr>effects := effects p @ [ToastError (JStr msg)]\<rparr>"

definition setTimeout :: "render_scope \<Rightarrow> payment_success \<Rightarrow> payment_success" where
  "setTimeout callback p = p\<lparr>timers := timers p @ [callback]\<rparr>"

definition maxAttempts :: nat where
  "maxAttempts = 5"

text \<open>
  \<^verbatim>\<open>
  const pollPaymentStatus = async () => {
    const maxAttempts = 5;
    try {
      const response = await paymentAPI.getStatus(sessionId);
      if (response.data.payment_status === 'paid') {
        setStatus('success');
        toast.success('Payment successful!');
        return;
      }
      if (attempts < maxAttempts) {
        setAttempts(prev => prev + 1);
        setTimeout(pollPaymentStatus, 2000);
      } else {
        setStatus('timeout');
        toast.error('Payment verification timed out. Please contact support.');
      }
    } catch (error) {
      setStatus('error');
      toast.error('Failed to verify payment status');
    }
  };
  \<close>
  The function is split at its \<^verbatim>\<open>await\<close>. \<open>pollPaymentStatus_call\<close> is the part that
  runs when the function is called: it sends the status query and suspends.
  \<open>pollPaymentStatus_resume\<close> is the part that runs when the query has settled.
  Inside the body, \<^verbatim>\<open>attempts\<close> is the constant of the render that created this
  closure, and \<^verbatim>\<open>pollPaymentStatus\<close> in \<^verbatim>\<open>setTimeout(pollPaymentStatus, 2000)\<close> is this
  closure itself: the callback scheduled has the scope of the running activation.
\<close>

definition pollPaymentStatus_call ::
  "string \<Rightarrow> storage \<Rightarrow> render_scope \<Rightarrow> payment_success \<Rightarrow> payment_success" where
  "pollPaymentStatus_call backend_url ls sc p =
     p\<lparr>effects := effects p @ [HttpRequest (getStatus backend_url ls (scope_sessionId sc))],
       in_flight := in_flight p @ [sc]\<rparr>"

definition pollPaymentStatus_resume ::
  "render_scope \<Rightarrow> axios_outcome \<Rightarrow> payment_success \<Rightarrow> payment_success" where
  "pollPaymentStatus_resume sc outcome p =
     (let catch = (\<lambda>p. toast_error ''Failed to verify payment status'' (setStatus ''error'' p))
      in case outcome of
           Rejected error \<Rightarrow> catch p
         | Resolved response \<Rightarrow>
             (case member (obj_get response ''data'') ''payment_status'' of
                None \<Rightarrow> catch p
              | Some payment_status \<Rightarrow>
                  if payment_status = JStr ''paid''
                  then toast_success ''Payment successful!'' (setStatus ''success'' p)
                  else if scope_attempts sc < maxAttempts
                  then setTimeout sc (setAttempts (\<lambda>prev. prev + 1) p)
                  else toast_error ''Payment verification timed out. Please contact support.''
                         (setStatus ''timeout'' p)))"

text \<open>
  \<^verbatim>\<open>
  useEffect(() => {
    if (sessionId) {
      pollPaymentStatus();
    }
  }, [sessionId]);
  \<close>
  The effect runs after the first render, with the first render's closure, and registers
  no cleanup. It does not run again while the component stays mounted on the same URL.
  \<open>sessionId\<close> is \<^verbatim>\<open>searchParams.get('session_id')\<close>: a string or \<^verbatim>\<open>null\<close>.
\<close>

definition mount :: "string \<Rightarrow> storage \<Rightarrow> string option \<Rightarrow> payment_success" where
  "mount backend_url ls sessionId =
     (let p = payment_success_init;
          sc = render p sessionId
      in if (case sessionId of None \<Rightarrow> False | Some s \<Rightarrow> s \<noteq> [])
         then pollPaymentStatus_call backend_url ls sc p
         else p)"

text \<open>
  What can happen to a mounted page: the oldest query in flight settles, the oldest
  pending timer fires, the component is torn down. The teardown runs no cleanup (the
  effect returns none, and nothing calls \<^verbatim>\<open>clearTimeout\<close>), so pending timers and
  suspended activations stay. An event that is not possible in a state gives \<open>None\<close>.
\<close>

datatype event = Settle axios_outcome | TimerFire | Unmount

fun step :: "string \<Rightarrow> storage \<Rightarrow> event \<Rightarrow> payment_success \<Rightarrow> payment_success option" where
  "step backend_url ls (Settle outcome) p =
     (case in_flight p of
        [] \<Rightarrow> None
      | sc # rest \<Rightarrow> Some (pollPaymentStatus_resume sc outcome (p\<lparr>in_flight := rest\<rparr>)))"
| "step backend_url ls TimerFire p =
     (case timers p of
        [] \<Rightarrow> None
      | sc # rest \<Rightarrow> Some (pollPaymentStatus_call backend_url ls sc (p\<lparr>timers := rest\<rparr>)))"
| "step backend_url ls Unmount p =
     (if is_mounted p then Some (p\<lparr>is_mounted := False\<rparr>) else None)"

fun run :: "string \<Rightarrow> storage \<Rightarrow> event list \<Rightarrow> payment_success \<Rightarrow> payment_success option" where
  "run backend_url ls [] p = Some p"
| "run backend_url ls (ev # evs) p =
     (case step backend_url ls ev p of
        None \<Rightarrow> None
      | Some p' \<Rightarrow> run backend_url ls evs p')"

text \<open>The number of query outcomes the poller has observed in a run.\<close>

fun observed :: "event list \<Rightarrow> nat" where
  "observed [] = 0"
| "observed (Settle outcome # evs) = Suc (observed evs)"
| "observed (ev # evs) = observed evs"

text \<open>One round of a session that is not paid yet: the answer, then the 2-second timer.\<close>

definition unpaid :: axios_outcome where
  "unpaid = Resolved [(''data'', JObj [(''payment_status'', JStr ''unpaid'')])]"

definition unpaid_rounds :: "nat \<Rightarrow> event list" where
  "unpaid_rounds n = concat (replicate n [Settle unpaid, TimerFire])"

text \<open>
  What holds of every state of a run: at most one activation is suspended or scheduled,
  it has the scope of the first render, where \<^verbatim>\<open>attempts\<close> is 0, and the status is
  not \<^verbatim>\<open>timeout\<close>.
\<close>

definition poll_inv :: "payment_success \<Rightarrow> bool" where
  "poll_inv p \<longleftrightarrow>
     length (in_flight p) + length (timers p) \<le> 1
     \<and> list_all (\<lambda>sc. scope_attempts sc = 0) (in_flight p @ timers p)
     \<and> status p \<noteq> ''timeout''"

section \<open>Properties of the poller's runs\<close>

lemma sent_append: "sent (xs @ ys) = sent xs @ sent ys"
  by (induction xs rule: sent.induct) simp_all

lemma resume_sent:
  "sent (effects (pollPaymentStatus_resume sc outcome p)) = sent (effects p)"
  by (simp add: pollPaymentStatus_resume_def Let_def toast_error_def toast_success_def
        setStatus_def setAttempts_def setTimeout_def sent_append
      split: axios_outcome.splits option.splits)

lemma resume_in_flight:
  "in_flight (pollPaymentStatus_resume sc outcome p) = in_flight p"
  by (simp add: pollPaymentStatus_resume_def Let_def toast_error_def toast_success_def
        setStatus_def setAttempts_def setTimeout_def
      split: axios_outcome.splits option.splits)

lemma resume_unmounted:
  "\<not> is_mounted p \<Longrightarrow>
   status (pollPaymentStatus_resume sc outcome p) = status p
   \<and> attempts (pollPaymentStatus_resume sc outcome p) = attempts p
   \<and> \<not> is_mounted (pollPaymentStatus_resume sc outcome p)"
  by (simp add: pollPaymentStatus_resume_def Let_def toast_error_def toast_success_def
        setStatus_def setAttempts_def setTimeout_def
      split: axios_outcome.splits option.splits)

lemma resume_effects:
  "\<exists>es. effects (pollPaymentStatus_resume sc outcome p) = effects p @ es"
  by (simp add: pollPaymentStatus_resume_def Let_def toast_error_def toast_success_def
        setStatus_def setAttempts_def setTimeout_def
      split: axios_outcome.splits option.splits)

lemma step_effects:
  "step backend_url ls ev p = Some p' \<Longrightarrow> \<exists>es. effects p' = effects p @ es"
proof (cases ev)
  case (Settle outcome)
  assume "step backend_url ls ev p = Some p'"
  with Settle obtain sc rest where
    "p' = pollPaymentStatus_resume sc outcome (p\<lparr>in_flight := rest\<rparr>)"
    by (auto split: list.splits)
  with resume_effects [of sc outcome "p\<lparr>in_flight := rest\<rparr>"] show ?thesis by simp
next
  case TimerFire
  assume "step backend_url ls ev p = Some p'"
  with TimerFire show ?thesis
    by (auto simp: pollPaymentStatus_call_def split: list.splits)
next
  case Unmount
  assume "step backend_url ls ev p = Some p'"
  with Unmount show ?thesis by (auto split: if_splits)
qed

lemma run_effects:
  "run backend_url ls evs p = Some p' \<Longrightarrow> \<exists>es. effects p' = effects p @ es"
proof (induction evs arbitrary: p)
  case Nil
  then show ?case by simp
next
  case (Cons ev evs)
  then obtain q where q: "step backend_url ls ev p = Some q"
    and r: "run backend_url ls evs q = Some p'"
    by (auto split: option.splits)
  from step_effects [OF q] Cons.IH [OF r] show ?case by auto
qed

text \<open>With nothing in flight and no timer pending, only the teardown can still happen.\<close>

lemma run_quiescent:
  "timers p = [] \<Longrightarrow> in_flight p = [] \<Longrightarrow> run backend_url ls evs p = Some p' \<Longrightarrow>
   effects p' = effects p \<and> status p' = status p \<and> attempts p' = attempts p
   \<and> timers p' = [] \<and> in_flight p' = []"
proof (induction evs arbitrary: p)
  case Nil
  then show ?case by simp
next
  case (Cons ev evs)
  then obtain q where q: "step backend_url ls ev p = Some q"
    and r: "run backend_url ls evs q = Some p'"
    by (auto split: option.splits)
  from q Cons.prems(1,2) have "q = p\<lparr>is_mounted := False\<rparr>"
    by (cases ev) (auto split: if_splits)
  with Cons.IH [OF _ _ r] Cons.prems(1,2) show ?case by simp
qed

text \<open>After the teardown the two state cells no longer change.\<close>

lemma step_unmounted:
  "\<not> is_mounted p \<Longrightarrow> step backend_url ls ev p = Some p' \<Longrightarrow>
   status p' = status p \<and> attempts p' = attempts p \<and> \<not> is_mounted p'"
proof (cases ev)
  case (Settle outcome)
  assume u: "\<not> is_mounted p" and "step backend_url ls ev p = Some p'"
  with Settle obtain sc rest where
    "p' = pollPaymentStatus_resume sc outcome (p\<lparr>in_flight := rest\<rparr>)"
    by (auto split: list.splits)
  with resume_unmounted [of "p\<lparr>in_flight := rest\<rparr>" sc outcome] u show ?thesis by simp
next
  case TimerFire
  assume "\<not> is_mounted p" and "step backend_url ls ev p = Some p'"
  with TimerFire show ?thesis
    by (auto simp: pollPaymentStatus_call_def split: list.splits)
next
  case Unmount
  assume "\<not> is_mounted p" and "step backend_url ls ev p = Some p'"
  with Unmount show ?thesis by simp
qed

lemma run_unmounted:
  "\<not> is_mounted p \<Longrightarrow> run backend_url ls evs p = Some p' \<Longrightarrow>
   status p' = status p \<and> attempts p' = attempts p \<and> \<not> is_mounted p'"
proof (induction evs arbitrary: p)
  case Nil
  then show ?case by simp
next
  case (Cons ev evs)
  then obtain q where q: "step backend_url ls ev p = Some q"
    and r: "run backend_url ls evs q = Some p'"
    by (auto split: option.splits)
  from step_unmounted [OF Cons.prems(1) q] Cons.IH [OF _ r] show ?case by simp
qed

text \<open>The invariant holds after the mount and is kept by every event.\<close>

lemma mount_inv: "poll_inv (mount backend_url ls sessionId)"
  by (simp add: poll_inv_def mount_def Let_def payment_success_init_def render_def
        pollPaymentStatus_call_def)

lemma resume_inv:
  assumes "scope_attempts sc = 0" and "status p \<noteq> ''timeout''"
    and "in_flight p = []" and "timers p = []"
  shows "poll_inv (pollPaymentStatus_resume sc outcome p)"
  using assms
  by (simp add: poll_inv_def pollPaymentStatus_resume_def Let_def toast_error_def
        toast_success_def setStatus_def setAttempts_def setTimeout_def maxAttempts_def
      split: axios_outcome.splits option.splits)

lemma step_inv:
  assumes "poll_inv p" and "step backend_url ls ev p = Some p'"
  shows "poll_inv p'"
proof (cases ev)
  case (Settle outcome)
  with assms(2) obtain sc rest where f: "in_flight p = sc # rest"
    and p': "p' = pollPaymentStatus_resume sc outcome (p\<lparr>in_flight := rest\<rparr>)"
    by (auto split: list.splits)
  from assms(1) f have "rest = []" "timers p = []" "scope_attempts sc = 0"
    "status p \<noteq> ''timeout''"
    by (simp_all add: poll_inv_def)
  with p' resume_inv [of sc "p\<lparr>in_flight := rest\<rparr>" outcome] show ?thesis by simp
next
  case TimerFire
  with assms(2) obtain sc rest where t: "timers p = sc # rest"
    and p': "p' = pollPaymentStatus_call backend_url ls sc (p\<lparr>timers := rest\<rparr>)"
    by (auto split: list.splits)
  from assms(1) t have "rest = []" "in_flight p = []" "scope_attempts sc = 0"
    "status p \<noteq> ''timeout''"
    by (simp_all add: poll_inv_def)
  with p' show ?thesis by (simp add: poll_inv_def pollPaymentStatus_call_def)
next
  case Unmount
  with assms show ?thesis by (auto simp: poll_inv_def split: if_splits)
qed

lemma run_inv:
  "poll_inv p \<Longrightarrow> run backend_url ls evs p = Some p' \<Longrightarrow> poll_inv p'"
proof (induction evs arbitrary: p)
  case Nil
  then show ?case by simp
next
  case (Cons ev evs)
  then obtain q where q: "step backend_url ls ev p = Some q"
    and r: "run backend_url ls evs q = Some p'"
    by (auto split: option.splits)
  from Cons.IH [OF step_inv [OF Cons.prems(1) q] r] show ?case .
qed

text \<open>Queries sent, queries in flight and outcomes observed, counted along a run.\<close>

lemma observed_Cons: "observed (ev # evs) = observed [ev] + observed evs"
  by (cases ev) simp_all

lemma step_count:
  assumes "step backend_url ls ev p = Some p'"
  shows "length (sent (effects p')) + length (in_flight p) =
         length (sent (effects p)) + length (in_flight p') + observed [ev]"
proof (cases ev)
  case (Settle outcome)
  with assms obtain sc rest where f: "in_flight p = sc # rest"
    and p': "p' = pollPaymentStatus_resume sc outcome (p\<lparr>in_flight := rest\<rparr>)"
    by (auto split: list.splits)
  with Settle show ?thesis by (simp add: resume_sent resume_in_flight)
next
  case TimerFire
  with assms show ?thesis
    by (auto simp: pollPaymentStatus_call_def sent_append split: list.splits)
next
  case Unmount
  with assms show ?thesis by (auto split: if_splits)
qed

lemma run_count:
  "run backend_url ls evs p = Some p' \<Longrightarrow>
   length (sent (effects p')) + length (in_flight p) =
   length (sent (effects p)) + length (in_flight p') + observed evs"
proof (induction evs arbitrary: p)
  case Nil
  then show ?case by simp
next
  case (Cons ev evs)
  then obtain q where q: "step backend_url ls ev p = Some q"
    and r: "run backend_url ls evs q = Some p'"
    by (auto split: option.splits)
  from step_count [OF q] Cons.IH [OF r] observed_Cons [of ev evs] show ?case by simp
qed

lemma mount_count:
  "length (sent (effects (mount backend_url ls sessionId))) =
   length (in_flight (mount backend_url ls sessionId))"
  by (simp add: mount_def Let_def payment_success_init_def pollPaymentStatus_call_def)

text \<open>
  The branch that sets \<^verbatim>\<open>timeout\<close> is never taken: every activation compares the
  \<^verbatim>\<open>attempts\<close> of the first render, which is 0, with \<open>maxAttempts\<close>.
\<close>

lemma poll_never_timeout:
  "run backend_url ls evs (mount backend_url ls sessionId) = Some p \<Longrightarrow>
   status p \<noteq> ''timeout''"
  using run_inv [OF mount_inv] by (simp add: poll_inv_def)

text \<open>
  A session that is never paid is queried again after every round, without end: after
  \<open>n\<close> rounds the counter cell is \<open>n\<close> higher, \<open>n\<close> more queries were sent, and the
  next one is in flight.
\<close>

lemma run_append:
  "run backend_url ls (xs @ ys) p =
     (case run backend_url ls xs p of None \<Rightarrow> None | Some q \<Rightarrow> run backend_url ls ys q)"
  by (induction xs arbitrary: p) (simp_all split: option.splits)

lemma unpaid_round:
  assumes "in_flight p = [sc]" and "timers p = []" and "scope_attempts sc = 0"
    and "is_mounted p"
  shows "run backend_url ls [Settle unpaid, TimerFire] p =
           Some (p\<lparr>attempts := attempts p + 1,
                    effects := effects p @
                      [HttpRequest (getStatus backend_url ls (scope_sessionId sc))]\<rparr>)"
  using assms
  by (simp add: unpaid_def pollPaymentStatus_resume_def Let_def obj_get_def setAttempts_def
        setTimeout_def maxAttempts_def pollPaymentStatus_call_def)

lemma unpaid_rounds_run:
  assumes "in_flight p = [sc]" and "timers p = []" and "scope_attempts sc = 0"
    and "is_mounted p"
  shows "run backend_url ls (unpaid_rounds n) p =
           Some (p\<lparr>attempts := attempts p + n,
                    effects := effects p @
                      replicate n (HttpRequest (getStatus backend_url ls (scope_sessionId sc)))\<rparr>)"
  using assms
proof (induction n arbitrary: p)
  case 0
  then show ?case by (simp add: unpaid_rounds_def)
next
  case (Suc n)
  let ?q = "p\<lparr>attempts := attempts p + 1,
               effects := effects p @
                 [HttpRequest (getStatus backend_url ls (scope_sessionId sc))]\<rparr>"
  have u: "unpaid_rounds (Suc n) = [Settle unpaid, TimerFire] @ unpaid_rounds n"
    by (simp add: unpaid_rounds_def)
  from Suc.prems have q: "run backend_url ls [Settle unpaid, TimerFire] p = Some ?q"
    by (rule unpaid_round)
  from Suc.prems have "run backend_url ls (unpaid_rounds n) ?q =
      Some (?q\<lparr>attempts := attempts ?q + n,
                effects := effects ?q @
                  replicate n (HttpRequest (getStatus backend_url ls (scope_sessionId sc)))\<rparr>)"
    by (intro Suc.IH) simp_all
  with q u show ?case
    by (simp only: run_append) (simp add: replicate_app_Cons_same)
qed

section \<open>The payment status poller\<close>

text \<open>
  C5. In every state of every run of the poller at most one status query is in flight,
  and never a query in flight together with a pending timer; the number of queries sent
  is the number of outcomes observed plus the number in flight. So when query \<open>N + 1\<close> is
  sent, the outcomes of the first \<open>N\<close> queries have been observed, and no two queries
  overlap.
\<close>

theorem poll_sequential:
  assumes "run backend_url ls evs (mount backend_url ls sessionId) = Some p"
  shows "length (in_flight p) \<le> 1
         \<and> length (in_flight p) + length (timers p) \<le> 1
         \<and> length (sent (effects p)) = observed evs + length (in_flight p)"
proof -
  from run_inv [OF mount_inv assms]
  have "length (in_flight p) + length (timers p) \<le> 1"
    by (simp add: poll_inv_def)
  moreover from run_count [OF assms] mount_count [of backend_url ls sessionId]
  have "length (sent (effects p)) = observed evs + length (in_flight p)"
    by simp
  ultimately show ?thesis by simp
qed

theorem poll_sequential_witness:
  "run ''https://api.example'' Map.empty [Settle unpaid, TimerFire]
     (mount ''https://api.example'' Map.empty (Some ''cs_test_1'')) =
     Some \<lparr>status = ''checking'', attempts = 1, is_mounted = True, timers = [],
           in_flight = [\<lparr>scope_attempts = 0, scope_sessionId = Some ''cs_test_1''\<rparr>],
           effects =
             [HttpRequest (getStatus ''https://api.example'' Map.empty (Some ''cs_test_1'')),
              HttpRequest (getStatus ''https://api.example'' Map.empty (Some ''cs_test_1''))]\<rparr>
   \<and> length (sent
        [HttpRequest (getStatus ''https://api.example'' Map.empty (Some ''cs_test_1'')),
         HttpRequest (getStatus ''https://api.example'' Map.empty (Some ''cs_test_1''))]) =
       observed [Settle unpaid, TimerFire] + 1"
proof -
  have h: "run ''https://api.example'' Map.empty [Settle unpaid, TimerFire]
     (mount ''https://api.example'' Map.empty (Some ''cs_test_1'')) =
     Some \<lparr>status = ''checking'', attempts = 1, is_mounted = True, timers = [],
           in_flight = [\<lparr>scope_attempts = 0, scope_sessionId = Some ''cs_test_1''\<rparr>],
           effects =
             [HttpRequest (getStatus ''https://api.example'' Map.empty (Some ''cs_test_1'')),
              HttpRequest (getStatus ''https://api.example'' Map.empty (Some ''cs_test_1''))]\<rparr>"
    by (simp add: mount_def Let_def payment_success_init_def render_def unpaid_def
          pollPaymentStatus_call_def pollPaymentStatus_resume_def obj_get_def
          setAttempts_def setTimeout_def maxAttempts_def)
  from poll_sequential [OF h] h show ?thesis by simp
qed

text \<open>
  C8. When the first status query of a session answers \<^verbatim>\<open>paid\<close>, the poller is in the
  state \<^verbatim>\<open>success\<close> after that one query and has shown the success toast; whatever
  happens afterwards, the status stays \<^verbatim>\<open>success\<close> and that query stays the only one
  sent.
\<close>

theorem poll_paid_first:
  assumes "sessionId \<noteq> []"
    and "member (obj_get response ''data'') ''payment_status'' = Some (JStr ''paid'')"
    and "run backend_url ls (Settle (Resolved response) # evs)
           (mount backend_url ls (Some sessionId)) = Some p"
  shows "run backend_url ls [Settle (Resolved response)]
           (mount backend_url ls (Some sessionId)) =
           Some \<lparr>status = ''success'', attempts = 0, is_mounted = True, timers = [],
                 in_flight = [],
                 effects = [HttpRequest (getStatus backend_url ls (Some sessionId)),
                            ToastSuccess (JStr ''Payment successful!'')]\<rparr>
         \<and> status p = ''success''
         \<and> effects p = [HttpRequest (getStatus backend_url ls (Some sessionId)),
                        ToastSuccess (JStr ''Payment successful!'')]
         \<and> sent (effects p) = [getStatus backend_url ls (Some sessionId)]"
proof -
  let ?q = "\<lparr>status = ''success'', attempts = 0, is_mounted = True, timers = [],
             in_flight = [],
             effects = [HttpRequest (getStatus backend_url ls (Some sessionId)),
                        ToastSuccess (JStr ''Payment successful!'')]\<rparr>"
  from assms(1,2)
  have s: "step backend_url ls (Settle (Resolved response))
             (mount backend_url ls (Some sessionId)) = Some ?q"
    by (simp add: mount_def Let_def payment_success_init_def render_def
          pollPaymentStatus_call_def pollPaymentStatus_resume_def setStatus_def
          toast_success_def)
  with assms(3) have r: "run backend_url ls evs ?q = Some p" by simp
  have "effects p = effects ?q \<and> status p = status ?q"
    using run_quiescent [OF _ _ r] by simp
  with s show ?thesis by simp
qed

theorem poll_paid_first_witness:
  "''cs_test_1'' \<noteq> []
   \<and> member (obj_get [(''data'', JObj [(''payment_status'', JStr ''paid'')])] ''data'')
       ''payment_status'' = Some (JStr ''paid'')
   \<and> run ''https://api.example'' Map.empty
       [Settle (Resolved [(''data'', JObj [(''payment_status'', JStr ''paid'')])]), Unmount]
       (mount ''https://api.example'' Map.empty (Some ''cs_test_1'')) =
       Some \<lparr>status = ''success'', attempts = 0, is_mounted = False, timers = [],
             in_flight = [],
             effects =
               [HttpRequest (getStatus ''https://api.example'' Map.empty (Some ''cs_test_1'')),
                ToastSuccess (JStr ''Payment successful!'')]\<rparr>
   \<and> sent
       [HttpRequest (getStatus ''https://api.example'' Map.empty (Some ''cs_test_1'')),
        ToastSuccess (JStr ''Payment successful!'')] =
       [getStatus ''https://api.example'' Map.empty (Some ''cs_test_1'')]"
proof -
  have a: "''cs_test_1'' \<noteq> []" by simp
  have b: "member (obj_get [(''data'', JObj [(''payment_status'', JStr ''paid'')])] ''data'')
       ''payment_status'' = Some (JStr ''paid'')"
    by (simp add: obj_get_def)
  have c: "run ''https://api.example'' Map.empty
       [Settle (Resolved [(''data'', JObj [(''payment_status'', JStr ''paid'')])]), Unmount]
       (mount ''https://api.example'' Map.empty (Some ''cs_test_1'')) =
       Some \<lparr>status = ''success'', attempts = 0, is_mounted = False, timers = [],
             in_flight = [],
             effects =
               [HttpRequest (getStatus ''https://api.example'' Map.empty (Some ''cs_test_1'')),
                ToastSuccess (JStr ''Payment successful!'')]\<rparr>"
    by (simp add: mount_def Let_def payment_success_init_def render_def
          pollPaymentStatus_call_def pollPaymentStatus_resume_def obj_get_def
          setStatus_def toast_success_def)
  from poll_paid_first [OF a b c] a b c show ?thesis by simp
qed

text \<open>
  C9. When a status query of a mounted poller fails, on whichever attempt, the poller
  goes to the state \<^verbatim>\<open>error\<close> at once and shows the failure toast; no timer is
  scheduled and no query is in flight, and whatever happens afterwards no further query
  is sent and the status stays \<^verbatim>\<open>error\<close>.
\<close>

theorem poll_query_error:
  assumes "run backend_url ls evs (mount backend_url ls sessionId) = Some p"
    and "is_mounted p"
    and "run backend_url ls (Settle (Rejected error) # evs') p = Some p'"
  shows "step backend_url ls (Settle (Rejected error)) p =
           Some (p\<lparr>status := ''error'', in_flight := [],
                   effects := effects p @
                     [ToastError (JStr ''Failed to verify payment status'')]\<rparr>)
         \<and> status p' = ''error''
         \<and> effects p' = effects p @ [ToastError (JStr ''Failed to verify payment status'')]
         \<and> sent (effects p') = sent (effects p)
         \<and> timers p' = [] \<and> in_flight p' = []"
proof -
  let ?q = "p\<lparr>status := ''error'', in_flight := [],
              effects := effects p @ [ToastError (JStr ''Failed to verify payment status'')]\<rparr>"
  from assms(3) obtain sc rest where f: "in_flight p = sc # rest"
    by (auto split: list.splits)
  from run_inv [OF mount_inv assms(1)] f have e: "rest = []" "timers p = []"
    by (simp_all add: poll_inv_def)
  from f e assms(2)
  have s: "step backend_url ls (Settle (Rejected error)) p = Some ?q"
    by (simp add: pollPaymentStatus_resume_def setStatus_def toast_error_def)
  with assms(3) have r: "run backend_url ls evs' ?q = Some p'" by simp
  from e have "timers ?q = []" "in_flight ?q = []" by simp_all
  from run_quiescent [OF this r] s show ?thesis by (simp add: sent_append)
qed

theorem poll_query_error_witness:
  "run ''https://api.example'' Map.empty [Settle unpaid, TimerFire]
     (mount ''https://api.example'' Map.empty (Some ''cs_test_1'')) =
     Some \<lparr>status = ''checking'', attempts = 1, is_mounted = True, timers = [],
           in_flight = [\<lparr>scope_attempts = 0, scope_sessionId = Some ''cs_test_1''\<rparr>],
           effects =
             [HttpRequest (getStatus ''https://api.example'' Map.empty (Some ''cs_test_1'')),
              HttpRequest (getStatus ''https://api.example'' Map.empty (Some ''cs_test_1''))]\<rparr>
   \<and> run ''https://api.example'' Map.empty [Settle (Rejected [(''message'', JStr ''Network Error'')])]
       \<lparr>status = ''checking'', attempts = 1, is_mounted = True, timers = [],
        in_flight = [\<lparr>scope_attempts = 0, scope_sessionId = Some ''cs_test_1''\<rparr>],
        effects =
          [HttpRequest (getStatus ''https://api.example'' Map.empty (Some ''cs_test_1'')),
           HttpRequest (getStatus ''https://api.example'' Map.empty (Some ''cs_test_1''))]\<rparr> =
     Some \<lparr>status = ''error'', attempts = 1, is_mounted = True, timers = [],
           in_flight = [],
           effects =
             [HttpRequest (getStatus ''https://api.example'' Map.empty (Some ''cs_test_1'')),
              HttpRequest (getStatus ''https://api.example'' Map.empty (Some ''cs_test_1'')),
              ToastError (JStr ''Failed to verify payment status'')]\<rparr>"
proof -
  let ?p = "\<lparr>status = ''checking'', attempts = 1, is_mounted = True, timers = [],
        in_flight = [\<lparr>scope_attempts = 0, scope_sessionId = Some ''cs_test_1''\<rparr>],
        effects =
          [HttpRequest (getStatus ''https://api.example'' Map.empty (Some ''cs_test_1'')),
           HttpRequest (getStatus ''https://api.example'' Map.empty (Some ''cs_test_1''))]\<rparr>"
  let ?p' = "\<lparr>status = ''error'', attempts = 1, is_mounted = True, timers = [],
           in_flight = [],
           effects =
             [HttpRequest (getStatus ''https://api.example'' Map.empty (Some ''cs_test_1'')),
              HttpRequest (getStatus ''https://api.example'' Map.empty (Some ''cs_test_1'')),
              ToastError (JStr ''Failed to verify payment status'')]\<rparr>"
  have a: "run ''https://api.example'' Map.empty [Settle unpaid, TimerFire]
     (mount ''https://api.example'' Map.empty (Some ''cs_test_1'')) = Some ?p"
    by (simp add: mount_def Let_def payment_success_init_def render_def unpaid_def
          pollPaymentStatus_call_def pollPaymentStatus_resume_def obj_get_def
          setAttempts_def setTimeout_def maxAttempts_def)
  have b: "is_mounted ?p" by simp
  have c: "run ''https://api.example'' Map.empty
             [Settle (Rejected [(''message'', JStr ''Network Error'')])] ?p = Some ?p'"
    by (simp add: pollPaymentStatus_resume_def setStatus_def toast_error_def)
  from poll_query_error [OF a b c] a c show ?thesis by simp
qed

text \<open>
  C1 says that a session that is never paid is queried exactly 6 times and then goes to
  \<^verbatim>\<open>timeout\<close>. On the code, after six unpaid answers, each followed by its 2-second
  timer, a 7th query has been sent and the status is still \<^verbatim>\<open>checking\<close>, although the
  counter cell has reached 6.
\<close>

theorem poll_unpaid_seventh_query:
  "map_option (\<lambda>p. (length (sent (effects p)), status p, attempts p))
     (run ''https://api.example'' Map.empty (unpaid_rounds 6)
        (mount ''https://api.example'' Map.empty (Some ''cs_test_1''))) =
   Some (7, ''checking'', 6)"
  by code_simp

text \<open>
  C2 as stated fails: with a re-query pending, the component is torn down after one
  query was sent; when the timer fires afterwards, a second query is sent.
\<close>

theorem poll_query_after_unmount:
  "map_option (\<lambda>p. (is_mounted p, length (sent (effects p))))
     (run ''https://api.example'' Map.empty [Settle unpaid, Unmount]
        (mount ''https://api.example'' Map.empty (Some ''cs_test_1''))) = Some (False, 1)
   \<and> map_option (\<lambda>p. (is_mounted p, length (sent (effects p))))
     (run ''https://api.example'' Map.empty [Settle unpaid, Unmount, TimerFire]
        (mount ''https://api.example'' Map.empty (Some ''cs_test_1''))) = Some (False, 2)"
  by code_simp

text \<open>
  C2, as amended. If the component is torn down while a delayed re-query is pending, the
  teardown leaves the timer in place; when the timer fires afterwards, the scheduled
  status query is sent. The status and the attempt counter of the torn-down component
  are not changed by anything that happens after the teardown.
\<close>

theorem poll_unmount_pending_timer:
  assumes "timers p = sc # rest"
    and "run backend_url ls (Unmount # TimerFire # evs) p = Some p'"
  shows "step backend_url ls Unmount p = Some (p\<lparr>is_mounted := False\<rparr>)
         \<and> step backend_url ls TimerFire (p\<lparr>is_mounted := False\<rparr>) =
             Some (p\<lparr>is_mounted := False, timers := rest,
                     effects := effects p @
                       [HttpRequest (getStatus backend_url ls (scope_sessionId sc))],
                     in_flight := in_flight p @ [sc]\<rparr>)
         \<and> (\<exists>es. effects p' =
               effects p @ HttpRequest (getStatus backend_url ls (scope_sessionId sc)) # es)
         \<and> status p' = status p \<and> attempts p' = attempts p"
proof -
  let ?u = "p\<lparr>is_mounted := False\<rparr>"
  let ?q = "p\<lparr>is_mounted := False, timers := rest,
              effects := effects p @
                [HttpRequest (getStatus backend_url ls (scope_sessionId sc))],
              in_flight := in_flight p @ [sc]\<rparr>"
  from assms(2) have m: "is_mounted p" by (auto split: if_splits)
  then have u: "step backend_url ls Unmount p = Some ?u" by simp
  from assms(1) have t: "step backend_url ls TimerFire ?u = Some ?q"
    by (simp add: pollPaymentStatus_call_def)
  from assms(2) u t have r: "run backend_url ls evs ?q = Some p'" by simp
  from run_effects [OF r] obtain es where "effects p' = effects ?q @ es" ..
  then have "effects p' =
      effects p @ HttpRequest (getStatus backend_url ls (scope_sessionId sc)) # es"
    by simp
  moreover from run_unmounted [OF _ r] have "status p' = status p \<and> attempts p' = attempts p"
    by simp
  ultimately show ?thesis using u t by blast
qed

theorem poll_unmount_pending_timer_witness:
  "timers \<lparr>status = ''checking'', attempts = 1, is_mounted = True,
           timers = [\<lparr>scope_attempts = 0, scope_sessionId = Some ''cs_test_1''\<rparr>],
           in_flight = [],
           effects = [HttpRequest (getStatus ''https://api.example'' Map.empty
                        (Some ''cs_test_1''))]\<rparr> =
     [\<lparr>scope_attempts = 0, scope_sessionId = Some ''cs_test_1''\<rparr>]
   \<and> run ''https://api.example'' Map.empty [Unmount, TimerFire, Settle unpaid]
       \<lparr>status = ''checking'', attempts = 1, is_mounted = True,
        timers = [\<lparr>scope_attempts = 0, scope_sessionId = Some ''cs_test_1''\<rparr>],
        in_flight = [],
        effects = [HttpRequest (getStatus ''https://api.example'' Map.empty
                     (Some ''cs_test_1''))]\<rparr> =
     Some \<lparr>status = ''checking'', attempts = 1, is_mounted = False,
           timers = [\<lparr>scope_attempts = 0, scope_sessionId = Some ''cs_test_1''\<rparr>],
           in_flight = [],
           effects =
             [HttpRequest (getStatus ''https://api.example'' Map.empty (Some ''cs_test_1'')),
              HttpRequest (getStatus ''https://api.example'' Map.empty (Some ''cs_test_1''))]\<rparr>"
proof -
  let ?p = "\<lparr>status = ''checking'', attempts = 1, is_mounted = True,
        timers = [\<lparr>scope_attempts = 0, scope_sessionId = Some ''cs_test_1''\<rparr>],
        in_flight = [],
        effects = [HttpRequest (getStatus ''https://api.example'' Map.empty
                     (Some ''cs_test_1''))]\<rparr>"
  have a: "timers ?p = [\<lparr>scope_attempts = 0, scope_sessionId = Some ''cs_test_1''\<rparr>]"
    by simp
  have b: "run ''https://api.example'' Map.empty [Unmount, TimerFire, Settle unpaid] ?p =
     Some \<lparr>status = ''checking'', attempts = 1, is_mounted = False,
           timers = [\<lparr>scope_attempts = 0, scope_sessionId = Some ''cs_test_1''\<rparr>],
           in_flight = [],
           effects =
             [HttpRequest (getStatus ''https://api.example'' Map.empty (Some ''cs_test_1'')),
              HttpRequest (getStatus ''https://api.example'' Map.empty (Some ''cs_test_1''))]\<rparr>"
    by (simp add: unpaid_def pollPaymentStatus_call_def pollPaymentStatus_resume_def
          obj_get_def setAttempts_def setTimeout_def maxAttempts_def)
  from poll_unmount_pending_timer [OF a b] a b show ?thesis by simp
qed

section \<open>Checkout initiation\<close>

lemma handleUpgrade_state: "snd (handleUpgrade url_parses backend_url ls orgId outcome pg) = pg"
  by (simp add: handleUpgrade_def Let_def)

lemma pkg_id_packages:
  "pkg \<in> set packages \<Longrightarrow> pkg_id pkg \<in> {''starter'', ''professional'', ''enterprise''}"
  by (auto simp: packages_def)

lemma org_reachable_selectedPackage:
  "org_reachable pg \<Longrightarrow> selectedPackage pg \<in> {''starter'', ''professional'', ''enterprise''}"
proof (induction rule: org_reachable.induct)
  case mounted
  show ?case by (simp add: org_page_init_def)
next
  case (select_package pg pkg)
  from pkg_id_packages [OF select_package.hyps(2)] show ?case by simp
next
  case (upgrade pg url_parses backend_url ls orgId outcome)
  then show ?case by (simp only: handleUpgrade_state)
qed simp_all

text \<open>
  C3, as amended. Every checkout initiation sends one request, a POST to the checkout
  endpoint, whose body is exactly \<^verbatim>\<open>{ package_id, org_id }\<close>: \<^verbatim>\<open>package_id\<close> is the
  selected package, always one of starter, professional, enterprise, and \<^verbatim>\<open>org_id\<close> is
  the identifier of the current organization.
\<close>

theorem handleUpgrade_request_body:
  assumes "org_reachable pg"
  shows "sent (fst (handleUpgrade url_parses backend_url ls orgId outcome pg)) =
           [createCheckout backend_url ls
              (JObj [(''package_id'', JStr (selectedPackage pg)), (''org_id'', JStr orgId)])]
         \<and> body (hd (sent (fst (handleUpgrade url_parses backend_url ls orgId outcome pg)))) =
             JObj [(''package_id'', JStr (selectedPackage pg)), (''org_id'', JStr orgId)]
         \<and> req_method (hd (sent (fst (handleUpgrade url_parses backend_url ls orgId outcome pg)))) = POST
         \<and> selectedPackage pg \<in> {''starter'', ''professional'', ''enterprise''}"
proof -
  have "sent (fst (handleUpgrade url_parses backend_url ls orgId outcome pg)) =
          [createCheckout backend_url ls
             (JObj [(''package_id'', JStr (selectedPackage pg)), (''org_id'', JStr orgId)])]"
    by (simp add: handleUpgrade_def Let_def split: axios_outcome.splits option.splits)
  moreover have "selectedPackage pg \<in> {''starter'', ''professional'', ''enterprise''}"
    using assms by (rule org_reachable_selectedPackage)
  ultimately show ?thesis by (simp add: createCheckout_def)
qed

theorem handleUpgrade_request_body_witness:
  "org_reachable (org_page_init\<lparr>selectedPackage := ''professional''\<rparr>)
   \<and> body (hd (sent (fst (handleUpgrade (parses_except [JStr ''https://'']) ''https://api.example'' Map.empty ''org-42''
        (Resolved [(''data'', JObj [(''url'', JStr ''https://pay.example/c/1'')])])
        (org_page_init\<lparr>selectedPackage := ''professional''\<rparr>))))) =
       JObj [(''package_id'', JStr ''professional''), (''org_id'', JStr ''org-42'')]"
proof -
  have "\<lparr>pkg_id = ''professional'', pkg_name = ''Professional'', price = ''$79'',
         features = [''Up to 50 users'', ''Advanced features'', ''Priority support'']\<rparr>
        \<in> set packages"
    by (simp add: packages_def)
  from org_reachable.select_package [OF org_reachable.mounted this]
  have r: "org_reachable (org_page_init\<lparr>selectedPackage := ''professional''\<rparr>)"
    by simp
  from handleUpgrade_request_body [OF r, where url_parses = "parses_except [JStr ''https://'']"
      and backend_url = "''https://api.example''"
      and ls = Map.empty and orgId = "''org-42''"
      and outcome = "Resolved [(''data'', JObj [(''url'', JStr ''https://pay.example/c/1'')])]"] r
  show ?thesis by (simp add: createCheckout_def)
qed

text \<open>
  C3 as stated fails: the body sent for the plan professional and the organization
  org-42 has neither a \<^verbatim>\<open>plan_id\<close> nor an \<^verbatim>\<open>organization_id\<close> property.
\<close>

theorem handleUpgrade_no_plan_id:
  "map (\<lambda>r. (member (body r) ''plan_id'', member (body r) ''organization_id''))
     (sent (fst (handleUpgrade (parses_except [JStr ''https://'']) ''https://api.example'' Map.empty ''org-42''
        (Resolved [(''data'', JObj [(''url'', JStr ''https://pay.example/c/1'')])])
        (org_page_init\<lparr>selectedPackage := ''professional''\<rparr>))))
   = [(Some JUndefined, Some JUndefined)]"
  by (simp add: handleUpgrade_def Let_def createCheckout_def obj_get_def parses_except_def)

text \<open>
  C4, as amended. On a success response the initiator surfaces the error toast and
  performs no navigation exactly when the response has no body (\<^verbatim>\<open>data\<close> undefined or
  null) or the value of \<^verbatim>\<open>response.data.url\<close> does not parse as a URL. In every other
  case, also when the body carries no \<^verbatim>\<open>url\<close> and the value is \<^verbatim>\<open>undefined\<close>, it assigns
  the value to \<^verbatim>\<open>window.location.href\<close> and surfaces no error.
\<close>

theorem handleUpgrade_success_response:
  "fst (handleUpgrade url_parses backend_url ls orgId (Resolved response) pg) =
     [HttpRequest (createCheckout backend_url ls
        (JObj [(''package_id'', JStr (selectedPackage pg)), (''org_id'', JStr orgId)])),
      (if obj_get response ''data'' \<noteq> JUndefined \<and> obj_get response ''data'' \<noteq> JNull
          \<and> url_parses (opt_member (obj_get response ''data'') ''url'')
       then SetLocationHref (opt_member (obj_get response ''data'') ''url'')
       else ToastError (JStr ''Failed to create checkout session''))]"
  by (cases "obj_get response ''data''")
     (simp_all add: handleUpgrade_def Let_def opt_member_def js_or_def TypeError_def
        SyntaxError_def obj_get_def)

text \<open>
  C4 as stated fails: for a success response whose body is \<^verbatim>\<open>{}\<close> the value assigned is
  \<^verbatim>\<open>undefined\<close>, which the browser reads as the relative address \<^verbatim>\<open>undefined\<close>; the
  initiator shows no error and navigates.
\<close>

theorem handleUpgrade_missing_url:
  "fst (handleUpgrade (parses_except [JStr ''https://'']) ''https://api.example'' Map.empty
         ''org-42'' (Resolved [(''data'', JObj [])]) org_page_init) =
     [HttpRequest (createCheckout ''https://api.example'' Map.empty
        (JObj [(''package_id'', JStr ''starter''), (''org_id'', JStr ''org-42'')])),
      SetLocationHref JUndefined]"
  by (simp add: handleUpgrade_def Let_def obj_get_def org_page_init_def parses_except_def)

text \<open>
  A URL string that does not parse, such as \<^verbatim>\<open>https://\<close>, is not navigated to: the
  setter throws and the error toast is shown.
\<close>

lemma handleUpgrade_unparsable_url:
  "fst (handleUpgrade (parses_except [JStr ''https://'']) ''https://api.example'' Map.empty
         ''org-42'' (Resolved [(''data'', JObj [(''url'', JStr ''https://'')])]) org_page_init) =
     [HttpRequest (createCheckout ''https://api.example'' Map.empty
        (JObj [(''package_id'', JStr ''starter''), (''org_id'', JStr ''org-42'')])),
      ToastError (JStr ''Failed to create checkout session'')]"
  by (simp add: handleUpgrade_def Let_def obj_get_def org_page_init_def parses_except_def
        opt_member_def js_or_def SyntaxError_def)

text \<open>
  C6. When the success response carries the URL string \<open>u\<close>, and \<open>u\<close> parses as a URL,
  the initiator assigns exactly \<open>u\<close> to \<^verbatim>\<open>window.location.href\<close>: one navigation, to the
  string as returned, and no toast.
\<close>

theorem handleUpgrade_navigates:
  assumes "member (obj_get response ''data'') ''url'' = Some (JStr u)"
    and "url_parses (JStr u)"
  shows "fst (handleUpgrade url_parses backend_url ls orgId (Resolved response) pg) =
           [HttpRequest (createCheckout backend_url ls
              (JObj [(''package_id'', JStr (selectedPackage pg)), (''org_id'', JStr orgId)])),
            SetLocationHref (JStr u)]
         \<and> navigations
             (fst (handleUpgrade url_parses backend_url ls orgId (Resolved response) pg)) =
             [JStr u]"
  using assms by (simp add: handleUpgrade_def Let_def)

theorem handleUpgrade_navigates_witness:
  "member (obj_get [(''data'', JObj [(''url'', JStr ''https://pay.example/c/1'')])] ''data'')
      ''url'' = Some (JStr ''https://pay.example/c/1'')
   \<and> parses_except [JStr ''https://''] (JStr ''https://pay.example/c/1'')
   \<and> navigations (fst (handleUpgrade (parses_except [JStr ''https://''])
        ''https://api.example'' Map.empty ''org-42''
        (Resolved [(''data'', JObj [(''url'', JStr ''https://pay.example/c/1'')])])
        (org_page_init\<lparr>selectedPackage := ''professional''\<rparr>))) =
       [JStr ''https://pay.example/c/1'']"
proof -
  have h: "member (obj_get [(''data'', JObj [(''url'', JStr ''https://pay.example/c/1'')])]
             ''data'') ''url'' = Some (JStr ''https://pay.example/c/1'')"
    by (simp add: obj_get_def)
  have v: "parses_except [JStr ''https://''] (JStr ''https://pay.example/c/1'')"
    by (simp add: parses_except_def)
  from handleUpgrade_navigates [where url_parses = "parses_except [JStr ''https://'']"
      and backend_url = "''https://api.example''" and ls = Map.empty and orgId = "''org-42''"
      and pg = "org_page_init\<lparr>selectedPackage := ''professional''\<rparr>", OF h v] h v
  show ?thesis by simp
qed

text \<open>
  C7. When the checkout request fails, with a network error or with an error reported
  by the backend, the initiator shows one error toast, whose message is the backend's
  \<^verbatim>\<open>detail\<close> or else the fixed text, and is never empty; it does not navigate, sends no
  second request and leaves the page state as it was.
\<close>

theorem handleUpgrade_failure:
  "fst (handleUpgrade url_parses backend_url ls orgId (Rejected error) pg) =
     [HttpRequest (createCheckout backend_url ls
        (JObj [(''package_id'', JStr (selectedPackage pg)), (''org_id'', JStr orgId)])),
      ToastError (js_or
        (opt_member (opt_member (obj_get error ''response'') ''data'') ''detail'')
        (JStr ''Failed to create checkout session''))]
   \<and> truthy (js_or
        (opt_member (opt_member (obj_get error ''response'') ''data'') ''detail'')
        (JStr ''Failed to create checkout session''))
   \<and> navigations (fst (handleUpgrade url_parses backend_url ls orgId (Rejected error) pg)) = []
   \<and> length (sent (fst (handleUpgrade url_parses backend_url ls orgId (Rejected error) pg))) = 1
   \<and> snd (handleUpgrade url_parses backend_url ls orgId (Rejected error) pg) = pg"
  by (simp add: handleUpgrade_def Let_def js_or_def)

section \<open>Authorization header of the payment requests\<close>

text \<open>
  C10, as amended. Both payment requests carry exactly the header \<^verbatim>\<open>Authorization\<close> =
  \<^verbatim>\<open>Bearer \<close> followed by the stored token when a non-empty token is stored under
  \<^verbatim>\<open>token\<close>, and no header at all when no token is stored or the stored token is the
  empty string.
\<close>

theorem payment_auth_headers:
  "headers (createCheckout backend_url ls data) =
     (if ls ''token'' = None \<or> ls ''token'' = Some [] then []
      else [(''Authorization'', ''Bearer '' @ the (ls ''token''))])
   \<and> headers (getStatus backend_url ls sessionId) =
     (if ls ''token'' = None \<or> ls ''token'' = Some [] then []
      else [(''Authorization'', ''Bearer '' @ the (ls ''token''))])"
  by (auto simp: createCheckout_def getStatus_def getAuthHeaders_def getItem_def
           split: option.splits)

text \<open>
  C10 as stated fails when the token stored under \<^verbatim>\<open>token\<close> is the empty string: the
  token exists, and the requests carry no \<^verbatim>\<open>Authorization\<close> header.
\<close>

theorem payment_auth_headers_empty_token:
  "getItem (Map.empty(''token'' \<mapsto> '''')) ''token'' = Some ''''
   \<and> map_of (headers (createCheckout ''https://api.example'' (Map.empty(''token'' \<mapsto> ''''))
        (JObj []))) ''Authorization'' \<noteq> Some (''Bearer '' @ '''')
   \<and> map_of (headers (getStatus ''https://api.example'' (Map.empty(''token'' \<mapsto> ''''))
        (Some ''cs_1''))) ''Authorization'' \<noteq> Some (''Bearer '' @ '''')"
  by (simp add: createCheckout_def getStatus_def getAuthHeaders_def getItem_def)

end
